theory Spec2Isabelle
  imports Main "HOL-Library.Sublist"
begin

section \<open>Process setup: flags, logger and the database directory (main.go)\<close>

text \<open>
  The command-line flags of main.go, after \<^verbatim>\<open>flag.Parse()\<close>: each field holds the value
  given on the command line, or the default of its declaration.
\<close>

record flags =
  address :: string
  port :: string
  waDebug :: string
  logType :: string
  colorOutput :: bool
  sslcert :: string
  sslprivkey :: string
  adminToken :: string

text \<open>
  The logger chosen by \<^verbatim>\<open>init\<close>: a JSON logger on stdout when the log type is
  \<^verbatim>\<open>json\<close>, otherwise a console writer whose \<^verbatim>\<open>NoColor\<close> is the negation of the
  colour flag.
\<close>

datatype logger = JsonLogger | ConsoleLogger (noColor: bool)

datatype level = Info | Warn | Error | Fatal

type_synonym log_entry = "level \<times> string"

text \<open>
  \<^verbatim>\<open>init\<close> (main.go, lines 46 to 61). The environment is a function from variable
  names to values; \<^verbatim>\<open>os.Getenv\<close> gives the empty string for a variable that is not set.
\<close>

definition init :: "(string \<Rightarrow> string) \<Rightarrow> flags \<Rightarrow> flags \<times> logger" where
  "init getenv fl =
     (let lg = (if logType fl = ''json'' then JsonLogger
                else ConsoleLogger (\<not> colorOutput fl));
          fl' = (if adminToken fl = ''''
                 then (let v = getenv ''WUZAPI_ADMIN_TOKEN''
                       in if v \<noteq> '''' then fl\<lparr>adminToken := v\<rparr> else fl)
                 else fl)
      in (fl', lg))"

text \<open>
  The part of the process state that the functions of main.go read and write: the
  directories that exist, the lines logged so far, the per-tenant kill channels
  (\<^verbatim>\<open>killchannel\<close>, a map from tenant id to a channel, here the channel's number) and
  the values sent on those channels.
\<close>

type_synonym chan = nat

record proc =
  dirs :: "string set"
  logs :: "log_entry list"
  killchannel :: "int \<rightharpoonup> chan"
  sent :: "(chan \<times> bool) list"

definition log_msg :: "level \<Rightarrow> string \<Rightarrow> 'a proc_scheme \<Rightarrow> 'a proc_scheme" where
  "log_msg l m s = s\<lparr>logs := logs s @ [(l, m)]\<rparr>"

text \<open>
  A function of the process either returns a value or ends the process with an exit
  status (\<^verbatim>\<open>os.Exit\<close>, also reached through \<^verbatim>\<open>log.Fatal()\<close>).
\<close>

datatype exit = ExitStatus int

text \<open>
  \<^verbatim>\<open>getWritableDbPath\<close> (main.go, lines 63 to 71). \<open>mkdir_fails p\<close> says whether
  \<^verbatim>\<open>os.MkdirAll(p, 0755)\<close> returns an error; when it does not, the directory exists
  afterwards. The function's body ends at line 71 with \<^verbatim>\<open>return dbPath\<close>; the lines that
  follow it in the file (73 to 81, the fallback under the temporary directory) belong to
  no function and are never executed.
\<close>

definition getWritableDbPath :: "(string \<Rightarrow> bool) \<Rightarrow> proc \<Rightarrow> (exit \<times> proc) + (string \<times> proc)" where
  "getWritableDbPath mkdir_fails s =
     (let dbPath = ''dbdata'' in
      if mkdir_fails dbPath
      then Inl (ExitStatus 1, log_msg Fatal ''Failed to create dbdata directory'' s)
      else Inr (dbPath, s\<lparr>dirs := insert dbPath (dirs s)\<rparr>))"

text \<open>
  Durations and instants are counted in nanoseconds, as \<^verbatim>\<open>time.Duration\<close> and
  \<^verbatim>\<open>UnixNano\<close> do. They are unbounded integers here: the 64-bit counters of the
  program do not wrap before the year 2262.
\<close>

definition Second :: int where
  "Second = 1000000000"

definition Minute :: int where
  "Minute = 60 * Second"

text \<open>
  \<^verbatim>\<open>srv.Shutdown(ctx)\<close> of the library net/http, with a context that times out after
  \<open>timeout\<close>: it closes the listeners and waits until it finds every connection idle.
  When it finds that \<open>d\<close> nanoseconds after the call (\<open>idle = Some d\<close>) and within the
  deadline, it returns the error of closing the listeners, if there was one (\<open>ln_err\<close>),
  and \<^verbatim>\<open>nil\<close> otherwise; when the deadline passes first, or the connections never
  become idle (\<open>idle = None\<close>), it returns the context's error. The pair is (no error,
  time taken).
\<close>

definition srv_Shutdown :: "int \<Rightarrow> bool \<Rightarrow> int option \<Rightarrow> bool \<times> int" where
  "srv_Shutdown timeout ln_err idle =
     (case idle of
        None \<Rightarrow> (False, timeout)
      | Some d \<Rightarrow> if d \<le> timeout then (\<not> ln_err, d) else (False, timeout))"

text \<open>
  The state of \<^verbatim>\<open>main\<close> while the server runs: the process state, and whether the
  handle \<^verbatim>\<open>db\<close> of the users database, opened at line 89, is still open.
\<close>

record main_state = proc +
  db_open :: bool

text \<open>
  \<^verbatim>\<open>main\<close> after the signal has arrived on \<^verbatim>\<open>done\<close> (main.go, lines 155 to 165):
  it logs, and shuts the HTTP server down under a context of five seconds. When that
  returns an error it logs the error and calls \<^verbatim>\<open>os.Exit(1)\<close>, which runs no deferred
  call. Otherwise it logs again and returns: the deferred calls run, \<^verbatim>\<open>cancel()\<close> of
  the context and then \<^verbatim>\<open>db.Close()\<close> (deferred at line 94), and the process ends with
  status 0. \<^verbatim>\<open>db.Close()\<close> takes \<open>d\<close> nanoseconds when \<open>db_close = Some d\<close>, and does
  not return when \<open>db_close = None\<close>; its error is dropped. The result is the state, the
  exit status and the time taken, or \<open>None\<close> when the process does not exit.
\<close>

definition main_after_signal :: "bool \<Rightarrow> int option \<Rightarrow> int option \<Rightarrow> main_state
    \<Rightarrow> (main_state \<times> exit \<times> int) option" where
  "main_after_signal ln_err idle db_close s =
     (let s1 = log_msg Info ''Server Stopped'' s;
          (ok, elapsed) = srv_Shutdown (5 * Second) ln_err idle
      in if \<not> ok
         then Some (log_msg Error ''Server Shutdown Failed'' s1, ExitStatus 1, elapsed)
         else (let s2 = log_msg Info ''Server Exited Properly'' s1
               in case db_close of
                    None \<Rightarrow> None
                  | Some d \<Rightarrow> Some (s2\<lparr>db_open := False\<rparr>, ExitStatus 0, elapsed + d)))"

text \<open>
  What the specification asks of a shutdown, in its words: every Session that is active
  when the signal arrives (every tenant with a kill channel) has been told to stop on its
  channel, or a warning has been logged for it.
\<close>

definition spec_every_session_stopped :: "main_state \<Rightarrow> main_state \<Rightarrow> bool" where
  "spec_every_session_stopped s s' =
     (\<forall>i c. killchannel s i = Some c \<longrightarrow>
        (\<exists>b. (c, b) \<in> set (sent s')) \<or> (\<exists>m. (Warn, m) \<in> set (logs s')))"

text \<open>A running process with one active Session, of tenant 7.\<close>

definition serving :: main_state where
  "serving = \<lparr>dirs = {''dbdata''}, logs = [], killchannel = [7 \<mapsto> 0], sent = [],
              db_open = True\<rparr>"

section \<open>The users table (main.go, lines 96 to 106)\<close>

text \<open>
  A stored row of the table \<^verbatim>\<open>users\<close>. The columns declared \<^verbatim>\<open>NOT NULL\<close> hold a
  value; \<^verbatim>\<open>connected\<close> and \<^verbatim>\<open>expiration\<close> may be NULL (\<open>None\<close>).
\<close>

record user_row =
  id_col :: int
  name_col :: string
  token_col :: string
  webhook_col :: string
  jid_col :: string
  qrcode_col :: string
  connected_col :: "int option"
  expiration_col :: "int option"
  events_col :: string

text \<open>
  What a statement supplies for a column: nothing (the column is not named), NULL, or a
  value.
\<close>

datatype 'a supplied = Omitted | Null | Given 'a

datatype sql_error = NotNullFailed string | UniqueFailed string

text \<open>
  A column declared \<^verbatim>\<open>NOT NULL\<close>, with its default if it has one: an omitted column
  takes the default, and fails when there is none; NULL fails.
\<close>

definition not_null_col :: "string \<Rightarrow> 'a option \<Rightarrow> 'a supplied \<Rightarrow> sql_error + 'a" where
  "not_null_col cname dflt v =
     (case v of
        Given x \<Rightarrow> Inr x
      | Null \<Rightarrow> Inl (NotNullFailed cname)
      | Omitted \<Rightarrow> (case dflt of Some d \<Rightarrow> Inr d | None \<Rightarrow> Inl (NotNullFailed cname)))"

definition nullable_col :: "'a supplied \<Rightarrow> 'a option" where
  "nullable_col v = (case v of Given x \<Rightarrow> Some x | Null \<Rightarrow> None | Omitted \<Rightarrow> None)"

text \<open>
  An INSERT. \<open>ins_id\<close> is the id of the new row: the one the statement gives, or the
  row id the engine assigns when the statement gives none.
\<close>

record insert_stmt =
  ins_id :: int
  ins_name :: "string supplied"
  ins_token :: "string supplied"
  ins_webhook :: "string supplied"
  ins_jid :: "string supplied"
  ins_qrcode :: "string supplied"
  ins_connected :: "int supplied"
  ins_expiration :: "int supplied"
  ins_events :: "string supplied"

definition row_of_insert :: "insert_stmt \<Rightarrow> sql_error + user_row" where
  "row_of_insert st =
     (case not_null_col ''name'' None (ins_name st) of Inl e \<Rightarrow> Inl e | Inr n \<Rightarrow>
      case not_null_col ''token'' None (ins_token st) of Inl e \<Rightarrow> Inl e | Inr t \<Rightarrow>
      case not_null_col ''webhook'' (Some []) (ins_webhook st) of Inl e \<Rightarrow> Inl e | Inr w \<Rightarrow>
      case not_null_col ''jid'' (Some []) (ins_jid st) of Inl e \<Rightarrow> Inl e | Inr j \<Rightarrow>
      case not_null_col ''qrcode'' (Some []) (ins_qrcode st) of Inl e \<Rightarrow> Inl e | Inr q \<Rightarrow>
      case not_null_col ''events'' (Some ''All'') (ins_events st) of Inl e \<Rightarrow> Inl e | Inr ev \<Rightarrow>
        Inr \<lparr>id_col = ins_id st, name_col = n, token_col = t, webhook_col = w, jid_col = j,
             qrcode_col = q, connected_col = nullable_col (ins_connected st),
             expiration_col = nullable_col (ins_expiration st), events_col = ev\<rparr>)"

text \<open>The primary key: a row is stored only when no stored row has its id.\<close>

definition insert_row :: "insert_stmt \<Rightarrow> user_row list \<Rightarrow> sql_error + user_row list" where
  "insert_row st rows =
     (case row_of_insert st of
        Inl e \<Rightarrow> Inl e
      | Inr r \<Rightarrow> if id_col r \<in> set (map id_col rows) then Inl (UniqueFailed ''users.id'')
                else Inr (rows @ [r]))"

text \<open>
  An UPDATE gives every row that its WHERE clause selects the values of its SET clause,
  computed from the row as it was; a column that the SET clause does not name keeps its
  value. \<open>proposed\<close> holds the values of all columns after the SET clause, NULL being
  \<open>None\<close>; \<open>keep\<close> is the SET clause that names no column.
\<close>

record proposed =
  p_id :: "int option"
  p_name :: "string option"
  p_token :: "string option"
  p_webhook :: "string option"
  p_jid :: "string option"
  p_qrcode :: "string option"
  p_connected :: "int option"
  p_expiration :: "int option"
  p_events :: "string option"

definition keep :: "user_row \<Rightarrow> proposed" where
  "keep r =
     \<lparr>p_id = Some (id_col r), p_name = Some (name_col r), p_token = Some (token_col r),
      p_webhook = Some (webhook_col r), p_jid = Some (jid_col r),
      p_qrcode = Some (qrcode_col r), p_connected = connected_col r,
      p_expiration = expiration_col r, p_events = Some (events_col r)\<rparr>"

definition not_null_val :: "string \<Rightarrow> 'a option \<Rightarrow> sql_error + 'a" where
  "not_null_val cname v = (case v of None \<Rightarrow> Inl (NotNullFailed cname) | Some x \<Rightarrow> Inr x)"

text \<open>The NOT NULL constraints on the values an UPDATE proposes for a row.\<close>

definition row_of_proposed :: "proposed \<Rightarrow> sql_error + user_row" where
  "row_of_proposed v =
     (case not_null_val ''id'' (p_id v) of Inl e \<Rightarrow> Inl e | Inr i \<Rightarrow>
      case not_null_val ''name'' (p_name v) of Inl e \<Rightarrow> Inl e | Inr n \<Rightarrow>
      case not_null_val ''token'' (p_token v) of Inl e \<Rightarrow> Inl e | Inr t \<Rightarrow>
      case not_null_val ''webhook'' (p_webhook v) of Inl e \<Rightarrow> Inl e | Inr w \<Rightarrow>
      case not_null_val ''jid'' (p_jid v) of Inl e \<Rightarrow> Inl e | Inr j \<Rightarrow>
      case not_null_val ''qrcode'' (p_qrcode v) of Inl e \<Rightarrow> Inl e | Inr q \<Rightarrow>
      case not_null_val ''events'' (p_events v) of Inl e \<Rightarrow> Inl e | Inr ev \<Rightarrow>
        Inr \<lparr>id_col = i, name_col = n, token_col = t, webhook_col = w, jid_col = j,
             qrcode_col = q, connected_col = p_connected v,
             expiration_col = p_expiration v, events_col = ev\<rparr>)"

text \<open>
  The engine updates the selected rows one after the other. \<open>seen\<close> are the rows
  already visited, as they are now; the rows still to visit follow. A row is rewritten
  only when its new values pass the NOT NULL constraints and no other row of the table,
  as it is at that moment, has its new id; otherwise the whole statement fails.
\<close>

fun update_from :: "(user_row \<Rightarrow> bool) \<Rightarrow> (user_row \<Rightarrow> proposed) \<Rightarrow> user_row list \<Rightarrow> user_row list
    \<Rightarrow> sql_error + user_row list" where
  "update_from w f seen [] = Inr seen"
| "update_from w f seen (r # rs) =
     (if w r then
        (case row_of_proposed (f r) of
           Inl e \<Rightarrow> Inl e
         | Inr r' \<Rightarrow>
             if id_col r' \<in> set (map id_col (seen @ rs)) then Inl (UniqueFailed ''users.id'')
             else update_from w f (seen @ [r']) rs)
      else update_from w f (seen @ [r]) rs)"

text \<open>The rows are visited in the order of their ids, which are the row ids of the table.\<close>

definition update_rows :: "(user_row \<Rightarrow> bool) \<Rightarrow> (user_row \<Rightarrow> proposed) \<Rightarrow> user_row list
    \<Rightarrow> sql_error + user_row list" where
  "update_rows w f rows = update_from w f [] (sort_key id_col rows)"

definition delete_rows :: "(user_row \<Rightarrow> bool) \<Rightarrow> user_row list \<Rightarrow> user_row list" where
  "delete_rows w rows = filter (\<lambda>r. \<not> w r) rows"

text \<open>
  The statements that change the table, each with the default handling of a constraint
  violation (the statement fails and changes nothing).
\<close>

datatype stmt =
    Insert insert_stmt
  | Update "user_row \<Rightarrow> bool" "user_row \<Rightarrow> proposed"
  | Delete "user_row \<Rightarrow> bool"

fun exec_stmt :: "stmt \<Rightarrow> user_row list \<Rightarrow> sql_error + user_row list" where
  "exec_stmt (Insert st) rows = insert_row st rows"
| "exec_stmt (Update w f) rows = update_rows w f rows"
| "exec_stmt (Delete w) rows = Inr (delete_rows w rows)"

text \<open>
  A run of statements against the table; a statement that fails leaves the table as it
  was.
\<close>

fun exec_all :: "stmt list \<Rightarrow> user_row list \<Rightarrow> user_row list" where
  "exec_all [] rows = rows"
| "exec_all (q # qs) rows =
     exec_all qs (case exec_stmt q rows of Inl e \<Rightarrow> rows | Inr rows' \<Rightarrow> rows')"

text \<open>The invariant of the specification, in its words: no two records share a token.\<close>

definition spec_tokens_unique :: "user_row list \<Rightarrow> bool" where
  "spec_tokens_unique rows = distinct (map token_col rows)"

text \<open>
  The INSERT that names only the name and the token, as
  \<^verbatim>\<open>INSERT INTO users (id, name, token) VALUES (?, ?, ?)\<close> does.
\<close>

definition new_user :: "int \<Rightarrow> string \<Rightarrow> string \<Rightarrow> insert_stmt" where
  "new_user i n t =
     \<lparr>ins_id = i, ins_name = Given n, ins_token = Given t, ins_webhook = Omitted,
      ins_jid = Omitted, ins_qrcode = Omitted, ins_connected = Omitted,
      ins_expiration = Omitted, ins_events = Omitted\<rparr>"

section \<open>The Auth Cache (main.go, line 42)\<close>

text \<open>
  \<^verbatim>\<open>userinfocache = cache.New(5*time.Minute, 10*time.Minute)\<close> builds a cache of the
  library go-cache. Its first argument is the default expiration of an item, its second
  the interval at which a background janitor deletes the expired items. The library is
  modelled after its documented behaviour, with the clock made explicit: every operation
  takes the instant \<open>now\<close> at which it runs.

  An item holds the cached object and the instant at which it expires; an expiration of
  zero means that the item does not expire.
\<close>

record 'v item =
  Object :: 'v
  Expiration :: int

record 'v cache =
  defaultExpiration :: int
  cleanupInterval :: int
  items :: "string \<rightharpoonup> 'v item"

definition NoExpiration :: int where
  "NoExpiration = - 1"

definition DefaultExpiration :: int where
  "DefaultExpiration = 0"

definition New :: "int \<Rightarrow> int \<Rightarrow> 'v cache" where
  "New de ci =
     \<lparr>defaultExpiration = (if de = 0 then - 1 else de), cleanupInterval = ci,
      items = Map.empty\<rparr>"

definition userinfocache :: "int cache" where
  "userinfocache = New (5 * Minute) (10 * Minute)"

text \<open>
  The test that \<^verbatim>\<open>Get\<close> and \<^verbatim>\<open>DeleteExpired\<close> make on an item: it has an expiration
  and the clock is past it.
\<close>

definition expired :: "'v item \<Rightarrow> int \<Rightarrow> bool" where
  "expired it now = (Expiration it > 0 \<and> now > Expiration it)"

text \<open>
  \<^verbatim>\<open>Set(k, x, d)\<close> replaces the item of \<open>k\<close>; the duration \<open>d\<close> stands for the cache's
  default when it is \<^verbatim>\<open>DefaultExpiration\<close>, and a duration that is not positive gives an
  item that does not expire.
\<close>

definition cache_Set :: "string \<Rightarrow> 'v \<Rightarrow> int \<Rightarrow> int \<Rightarrow> 'v cache \<Rightarrow> 'v cache" where
  "cache_Set k x d now c =
     (let d' = (if d = DefaultExpiration then defaultExpiration c else d);
          e = (if d' > 0 then now + d' else 0)
      in c\<lparr>items := (items c)(k \<mapsto> \<lparr>Object = x, Expiration = e\<rparr>)\<rparr>)"

text \<open>
  \<^verbatim>\<open>Get(k)\<close> reads the item of \<open>k\<close> and leaves the cache as it is: it neither deletes
  an expired item nor changes the expiration of a live one.
\<close>

definition cache_Get :: "string \<Rightarrow> int \<Rightarrow> 'v cache \<Rightarrow> 'v option" where
  "cache_Get k now c =
     (case items c k of
        None \<Rightarrow> None
      | Some it \<Rightarrow> if expired it now then None else Some (Object it))"

text \<open>\<^verbatim>\<open>DeleteExpired()\<close>, which the janitor calls at every cleanup interval.\<close>

definition DeleteExpired :: "int \<Rightarrow> 'v cache \<Rightarrow> 'v cache" where
  "DeleteExpired now c =
     c\<lparr>items := (\<lambda>k. case items c k of
                        None \<Rightarrow> None
                      | Some it \<Rightarrow> if expired it now then None else Some it)\<rparr>"

text \<open>
  Modelled from the spec: the HTTP boundary that reads the cache is not in main.go. The
  specification's \<open>resolve(token)\<close> answers a tenant id or a miss: a \<^verbatim>\<open>Get\<close> on
  \<open>userinfocache\<close>.
\<close>

definition resolve :: "string \<Rightarrow> int \<Rightarrow> int cache \<Rightarrow> int option" where
  "resolve tok now c = cache_Get tok now c"

text \<open>
  Modelled from the spec: the HTTP boundary that fills the cache is not in main.go. The
  specification's \<open>put(token, tenant id)\<close> overwrites the entry of the token and resets
  its expiry to a fixed window: a \<^verbatim>\<open>Set\<close> with the default expiration of the cache.
\<close>

definition put :: "string \<Rightarrow> int \<Rightarrow> int \<Rightarrow> int cache \<Rightarrow> int cache" where
  "put tok uid now c = cache_Set tok uid DefaultExpiration now c"

text \<open>
  What happens to the cache over time: a put, a resolve or a sweep of the janitor, each
  at its instant.
\<close>

datatype cache_ev = Put int string int | Resolve int string | Sweep int

fun ev_time :: "cache_ev \<Rightarrow> int" where
  "ev_time (Put t tok uid) = t"
| "ev_time (Resolve t tok) = t"
| "ev_time (Sweep t) = t"

fun writes :: "string \<Rightarrow> cache_ev \<Rightarrow> bool" where
  "writes k (Put t tok uid) = (tok = k)"
| "writes k (Resolve t tok) = False"
| "writes k (Sweep t) = False"

fun cache_step :: "cache_ev \<Rightarrow> int cache \<Rightarrow> int cache" where
  "cache_step (Put t tok uid) c = put tok uid t c"
| "cache_step (Resolve t tok) c = c"
| "cache_step (Sweep t) c = DeleteExpired t c"

fun cache_run :: "cache_ev list \<Rightarrow> int cache \<Rightarrow> int cache" where
  "cache_run [] c = c"
| "cache_run (e # es) c = cache_run es (cache_step e c)"

text \<open>
  The expiry rule of the specification, in its words: an entry inserted at \<open>inserted\<close>
  and last accessed at \<open>accessed\<close> has expired at \<open>now\<close> when the idle window has passed
  since the last access or the absolute window has passed since the insertion, whichever
  comes first.
\<close>

definition spec_expired :: "int \<Rightarrow> int \<Rightarrow> int \<Rightarrow> int \<Rightarrow> int \<Rightarrow> bool" where
  "spec_expired idle absolute inserted accessed now =
     (accessed + idle < now \<or> inserted + absolute < now)"

text \<open>The outcome of authenticating a request: a tenant, or a rejection.\<close>

datatype auth = Tenant int | Rejected

text \<open>
  Modelled from the spec: the persistence layer's \<open>getByToken\<close> is not in main.go. It
  is the store's lookup by token, here the first record of the table with that token.
\<close>

definition getByToken :: "string \<Rightarrow> user_row list \<rightharpoonup> user_row" where
  "getByToken tok rows = find (\<lambda>r. token_col r = tok) rows"

text \<open>
  Modelled from the spec: authentication without the cache is not in main.go. It is the
  lookup in the store alone: the tenant of the record found, or a rejection.
\<close>

definition authenticate_store :: "string \<Rightarrow> user_row list \<Rightarrow> auth" where
  "authenticate_store tok rows =
     (case getByToken tok rows of None \<Rightarrow> Rejected | Some r \<Rightarrow> Tenant (id_col r))"

text \<open>
  Modelled from the spec: the authentication of a request is not in main.go. The HTTP
  boundary resolves the token in the cache; on a miss it looks the token up in the store
  and, if a record is found, puts it into the cache.
\<close>

definition authenticate :: "string \<Rightarrow> int \<Rightarrow> int cache \<Rightarrow> user_row list \<Rightarrow> auth \<times> int cache" where
  "authenticate tok now c rows =
     (case resolve tok now c of
        Some uid \<Rightarrow> (Tenant uid, c)
      | None \<Rightarrow>
          (case getByToken tok rows of
             None \<Rightarrow> (Rejected, c)
           | Some r \<Rightarrow> (Tenant (id_col r), put tok (id_col r) now c)))"

text \<open>
  The entry of a token agrees with the store when the cache holds no entry for the
  token, or the entry names the tenant that the store gives for the token.
\<close>

definition entry_agrees :: "user_row list \<Rightarrow> int cache \<Rightarrow> string \<Rightarrow> bool" where
  "entry_agrees rows c tok =
     (case items c tok of
        None \<Rightarrow> True
      | Some it \<Rightarrow> authenticate_store tok rows = Tenant (Object it))"

text \<open>
  What happens to the cache and the store over time: a request is authenticated, a
  statement is run against the table, or the janitor sweeps the cache.
\<close>

datatype sys_ev = Request int string | Statement stmt | Janitor int

fun sys_step :: "sys_ev \<Rightarrow> int cache \<times> user_row list \<Rightarrow> int cache \<times> user_row list" where
  "sys_step (Request t tok) (c, rows) = (snd (authenticate tok t c rows), rows)"
| "sys_step (Statement q) (c, rows) = (c, exec_all [q] rows)"
| "sys_step (Janitor t) (c, rows) = (DeleteExpired t c, rows)"

fun sys_run :: "sys_ev list \<Rightarrow> int cache \<times> user_row list \<Rightarrow> int cache \<times> user_row list" where
  "sys_run [] cs = cs"
| "sys_run (e # es) cs = sys_run es (sys_step e cs)"

text \<open>
  No statement of the run changes what the store gives for the token: each leaves the
  lookup of the token as it was before it.
\<close>

fun keeps_token :: "string \<Rightarrow> sys_ev list \<Rightarrow> user_row list \<Rightarrow> bool" where
  "keeps_token tok [] rows = True"
| "keeps_token tok (Statement q # es) rows =
     (authenticate_store tok (exec_all [q] rows) = authenticate_store tok rows
      \<and> keeps_token tok es (exec_all [q] rows))"
| "keeps_token tok (Request t k # es) rows = keeps_token tok es rows"
| "keeps_token tok (Janitor t # es) rows = keeps_token tok es rows"

section \<open>Example records\<close>

definition alice :: user_row where
  "alice = \<lparr>id_col = 1, name_col = ''alice'', token_col = ''secret'', webhook_col = [],
            jid_col = [], qrcode_col = [], connected_col = None, expiration_col = None,
            events_col = ''All''\<rparr>"

definition bob :: insert_stmt where
  "bob = new_user 2 ''bob'' ''other''"

section \<open>The admin token\<close>

text \<open>
  C10. The admin token is read from the environment variable WUZAPI_ADMIN_TOKEN only
  when the flag is the empty string: a non-empty flag is kept whatever the variable
  holds, an empty flag takes the variable's value, and when both are empty the token
  stays empty. No other flag is changed.
\<close>

theorem init_adminToken:
  "fst (init getenv fl) =
     fl\<lparr>adminToken := (if adminToken fl = [] then getenv ''WUZAPI_ADMIN_TOKEN''
                        else adminToken fl)\<rparr>"
  by (simp add: init_def Let_def)

section \<open>The database directory\<close>

text \<open>
  C9. Whenever getWritableDbPath returns, it returns the relative path dbdata, that
  directory exists, and nothing was logged on the way (in particular no fallback
  warning); the returned path is not a path ending in wuzapi-dbdata. It does return
  whenever the directory can be created.
\<close>

theorem getWritableDbPath_dbdata:
  "(getWritableDbPath mkdir_fails s = Inr (p, s') \<longrightarrow>
      p = ''dbdata'' \<and> ''dbdata'' \<in> dirs s' \<and> logs s' = logs s
      \<and> \<not> suffix ''wuzapi-dbdata'' p)
   \<and> (\<not> mkdir_fails ''dbdata'' \<longrightarrow> (\<exists>s'. getWritableDbPath mkdir_fails s = Inr (''dbdata'', s')))"
  by (auto simp: getWritableDbPath_def Let_def suffix_def)

theorem getWritableDbPath_dbdata_witness:
  "getWritableDbPath (\<lambda>p. False) \<lparr>dirs = {}, logs = [], killchannel = Map.empty, sent = []\<rparr>
     = Inr (''dbdata'', \<lparr>dirs = {''dbdata''}, logs = [], killchannel = Map.empty, sent = []\<rparr>)
   \<and> ''dbdata'' \<in> dirs \<lparr>dirs = {''dbdata''}, logs = [], killchannel = Map.empty, sent = []\<rparr>
   \<and> \<not> suffix ''wuzapi-dbdata'' ''dbdata''"
  using getWritableDbPath_dbdata [of "\<lambda>p. False"
      "\<lparr>dirs = {}, logs = [], killchannel = Map.empty, sent = []\<rparr>" "''dbdata''"
      "\<lparr>dirs = {''dbdata''}, logs = [], killchannel = Map.empty, sent = []\<rparr>"]
  by (simp add: getWritableDbPath_def Let_def)

section \<open>Shutdown\<close>

text \<open>
  C5, as the code has it. After the signal the process shuts the HTTP server down under
  a deadline of five seconds, and that shutdown never takes longer. When it returns an
  error (the connections were not idle by the deadline, or closing the listeners failed)
  the process logs the error and exits with status 1. Otherwise it logs, closes the
  database and exits with status 0, as soon as the database is closed; it does not exit
  only if closing the database never returns. It stops no Session: the kill channels are
  as they were, nothing has been sent on any of them, and the two lines it logs are no
  warnings.
\<close>

theorem shutdown_http_only:
  "(main_after_signal ln_err idle db_close s = None)
     = (fst (srv_Shutdown (5 * Second) ln_err idle) \<and> db_close = None)
   \<and> fst (srv_Shutdown (5 * Second) ln_err idle)
       = (case idle of None \<Rightarrow> False | Some d \<Rightarrow> d \<le> 5 * Second \<and> \<not> ln_err)
   \<and> snd (srv_Shutdown (5 * Second) ln_err idle) \<le> 5 * Second
   \<and> (case main_after_signal ln_err idle db_close s of
         None \<Rightarrow> True
       | Some (s', ex, elapsed) \<Rightarrow>
           killchannel s' = killchannel s \<and> sent s' = sent s \<and> dirs s' = dirs s
           \<and> (ex = ExitStatus 0) = fst (srv_Shutdown (5 * Second) ln_err idle)
           \<and> (ex = ExitStatus 1) = (\<not> fst (srv_Shutdown (5 * Second) ln_err idle))
           \<and> logs s' = logs s @ [(Info, ''Server Stopped''),
                 (if ex = ExitStatus 1 then (Error, ''Server Shutdown Failed'')
                  else (Info, ''Server Exited Properly''))]
           \<and> db_open s' = (if ex = ExitStatus 1 then db_open s else False)
           \<and> (if ex = ExitStatus 1 then elapsed = snd (srv_Shutdown (5 * Second) ln_err idle)
               else db_close = Some (elapsed - snd (srv_Shutdown (5 * Second) ln_err idle))))"
  by (auto simp: main_after_signal_def srv_Shutdown_def log_msg_def Let_def
      split: option.splits if_splits)

text \<open>
  C5, as stated, fails: with one active Session (tenant 7), an HTTP server whose
  connections are idle at once and a database that closes at once, the process exits
  with status 0 having sent nothing on the Session's kill channel and having logged no
  warning.
\<close>

theorem shutdown_stops_no_session:
  "main_after_signal False (Some 0) (Some 0) serving
     = Some (serving\<lparr>logs := [(Info, ''Server Stopped''), (Info, ''Server Exited Properly'')],
                     db_open := False\<rparr>, ExitStatus 0, 0)
   \<and> killchannel serving 7 = Some 0
   \<and> \<not> spec_every_session_stopped serving
         (serving\<lparr>logs := [(Info, ''Server Stopped''), (Info, ''Server Exited Properly'')],
                   db_open := False\<rparr>)"
  by (auto simp: main_after_signal_def srv_Shutdown_def log_msg_def Let_def Second_def
      spec_every_session_stopped_def serving_def)

section \<open>Uniqueness in the users table\<close>

lemma update_from_distinct:
  "distinct (map id_col (seen @ todo)) \<Longrightarrow> update_from w f seen todo = Inr rows' \<Longrightarrow>
     distinct (map id_col rows')"
proof (induction todo arbitrary: seen)
  case Nil
  then show ?case by simp
next
  case (Cons r rs)
  show ?case
  proof (cases "w r")
    case False
    with Cons.prems have "update_from w f (seen @ [r]) rs = Inr rows'" by simp
    moreover from Cons.prems have "distinct (map id_col ((seen @ [r]) @ rs))" by simp
    ultimately show ?thesis by (rule Cons.IH [rotated])
  next
    case True
    with Cons.prems obtain r' where r': "row_of_proposed (f r) = Inr r'"
      "id_col r' \<notin> set (map id_col (seen @ rs))"
      "update_from w f (seen @ [r']) rs = Inr rows'"
      by (auto split: sum.splits if_splits)
    from Cons.prems(1) have "distinct (map id_col (seen @ rs))" by simp
    with r'(2) have "distinct (map id_col ((seen @ [r']) @ rs))" by auto
    then show ?thesis using r'(3) by (rule Cons.IH)
  qed
qed

lemma update_rows_distinct:
  assumes "distinct (map id_col rows)" and "update_rows w f rows = Inr rows'"
  shows "distinct (map id_col rows')"
proof -
  from assms(1) have "distinct (map id_col ([] @ sort_key id_col rows))"
    by (simp add: distinct_map)
  then show ?thesis using assms(2) unfolding update_rows_def by (rule update_from_distinct)
qed

lemma exec_stmt_distinct:
  assumes "distinct (map id_col rows)" and "exec_stmt q rows = Inr rows'"
  shows "distinct (map id_col rows')"
proof (cases q)
  case (Insert st)
  with assms show ?thesis
    by (auto simp: insert_row_def split: sum.splits if_splits)
next
  case (Update w f)
  with assms show ?thesis
    by (auto intro: update_rows_distinct)
next
  case (Delete w)
  with assms show ?thesis
    by (auto simp: delete_rows_def distinct_map_filter)
qed

lemma exec_all_distinct:
  "distinct (map id_col rows) \<Longrightarrow> distinct (map id_col (exec_all qs rows))"
proof (induction qs arbitrary: rows)
  case Nil
  then show ?case by simp
next
  case (Cons q qs)
  show ?case
  proof (cases "exec_stmt q rows")
    case (Inl e)
    with Cons show ?thesis by simp
  next
    case (Inr rows')
    with Cons.prems have "distinct (map id_col rows')"
      by (rule exec_stmt_distinct)
    with Cons.IH Inr show ?thesis by simp
  qed
qed

lemma insert_needs_token:
  "(\<exists>t. ins_token st = Given t) \<or> isl (exec_stmt (Insert st) rows)"
  by (cases "ins_token st")
     (auto simp: insert_row_def row_of_insert_def not_null_col_def split: sum.splits)

lemma row_of_proposed_token:
  "p_token v = None \<Longrightarrow> isl (row_of_proposed v)"
  by (simp add: row_of_proposed_def not_null_val_def split: sum.splits option.splits)

lemma update_from_needs_token:
  "\<exists>r\<in>set todo. w r \<and> p_token (f r) = None \<Longrightarrow> isl (update_from w f seen todo)"
proof (induction todo arbitrary: seen)
  case Nil
  then show ?case by simp
next
  case (Cons r rs)
  show ?case
  proof (cases "w r \<and> p_token (f r) = None")
    case True
    then have "isl (row_of_proposed (f r))" by (simp add: row_of_proposed_token)
    with True show ?thesis by (auto split: sum.splits)
  next
    case False
    with Cons.prems have "\<exists>r\<in>set rs. w r \<and> p_token (f r) = None" by auto
    then have "isl (update_from w f seen' rs)" for seen' by (rule Cons.IH)
    then show ?thesis by (auto split: sum.splits)
  qed
qed

lemma update_needs_token:
  "(\<exists>r\<in>set rows. w r \<and> p_token (f r) = None) \<Longrightarrow> isl (exec_stmt (Update w f) rows)"
proof -
  assume "\<exists>r\<in>set rows. w r \<and> p_token (f r) = None"
  then have "\<exists>r\<in>set (sort_key id_col rows). w r \<and> p_token (f r) = None" by simp
  then show ?thesis unfolding exec_stmt.simps update_rows_def by (rule update_from_needs_token)
qed

text \<open>
  C4, as the code has it. In every table reached from the empty one by INSERT, UPDATE
  and DELETE statements, an UPDATE being free to set any column, the id included, the
  ids are pairwise distinct (the primary key). A token is never NULL: an INSERT that
  gives no token, or NULL, is refused, and so is an UPDATE that sets the token of a row
  it selects to NULL. The schema asks nothing more of the token.
\<close>

theorem users_ids_unique:
  "distinct (map id_col (exec_all qs []))
   \<and> (\<forall>st rows. (\<exists>t. ins_token st = Given t) \<or> isl (exec_stmt (Insert st) rows))
   \<and> (\<forall>w f rows. (\<exists>r\<in>set rows. w r \<and> p_token (f r) = None) \<longrightarrow>
         isl (exec_stmt (Update w f) rows))"
  using exec_all_distinct [of "[]" qs] insert_needs_token update_needs_token by simp

theorem users_ids_unique_witness:
  "exec_all [Insert (new_user 1 ''alice'' ''secret''), Insert bob,
             Update (\<lambda>r. True) (\<lambda>r. (keep r)\<lparr>p_id := Some (id_col r + 1)\<rparr>),
             Update (\<lambda>r. id_col r = 2) (\<lambda>r. (keep r)\<lparr>p_id := Some 5\<rparr>),
             Update (\<lambda>r. True) (\<lambda>r. (keep r)\<lparr>p_token := None\<rparr>)] []
     = [alice, \<lparr>id_col = 5, name_col = ''bob'', token_col = ''other'', webhook_col = [],
               jid_col = [], qrcode_col = [], connected_col = None, expiration_col = None,
               events_col = ''All''\<rparr>]
   \<and> distinct (map id_col [alice, \<lparr>id_col = 5, name_col = ''bob'', token_col = ''other'',
         webhook_col = [], jid_col = [], qrcode_col = [], connected_col = None,
         expiration_col = None, events_col = ''All''\<rparr>])
   \<and> isl (exec_stmt (Update (\<lambda>r. True) (\<lambda>r. (keep r)\<lparr>p_token := None\<rparr>)) [alice])"
  using users_ids_unique [of "[Insert (new_user 1 ''alice'' ''secret''), Insert bob,
             Update (\<lambda>r. True) (\<lambda>r. (keep r)\<lparr>p_id := Some (id_col r + 1)\<rparr>),
             Update (\<lambda>r. id_col r = 2) (\<lambda>r. (keep r)\<lparr>p_id := Some 5\<rparr>),
             Update (\<lambda>r. True) (\<lambda>r. (keep r)\<lparr>p_token := None\<rparr>)]"]
  by (simp add: insert_row_def row_of_insert_def new_user_def bob_def not_null_col_def
      nullable_col_def alice_def update_rows_def row_of_proposed_def not_null_val_def keep_def)

text \<open>
  C4, as stated, fails: the table accepts two rows with different ids and the same
  token.
\<close>

theorem tokens_not_unique:
  "exec_all [Insert (new_user 1 ''alice'' ''secret''), Insert (new_user 2 ''bob'' ''secret'')] []
     = [\<lparr>id_col = 1, name_col = ''alice'', token_col = ''secret'', webhook_col = [], jid_col = [],
         qrcode_col = [], connected_col = None, expiration_col = None, events_col = ''All''\<rparr>,
        \<lparr>id_col = 2, name_col = ''bob'', token_col = ''secret'', webhook_col = [], jid_col = [],
         qrcode_col = [], connected_col = None, expiration_col = None, events_col = ''All''\<rparr>]
   \<and> \<not> spec_tokens_unique
        (exec_all [Insert (new_user 1 ''alice'' ''secret''), Insert (new_user 2 ''bob'' ''secret'')] [])"
  by (simp add: insert_row_def row_of_insert_def new_user_def not_null_col_def nullable_col_def
      spec_tokens_unique_def)

section \<open>Expiry in the Auth Cache\<close>

lemma cache_step_defaultExpiration:
  "defaultExpiration (cache_step e c) = defaultExpiration c"
  by (cases e) (simp_all add: put_def cache_Set_def DeleteExpired_def Let_def)

lemma cache_run_defaultExpiration:
  "defaultExpiration (cache_run evs c) = defaultExpiration c"
  by (induction evs arbitrary: c) (simp_all add: cache_step_defaultExpiration)

lemma userinfocache_defaultExpiration: "defaultExpiration userinfocache = 5 * Minute"
  by (simp add: userinfocache_def New_def Minute_def Second_def)

text \<open>
  An event that does not write the token and does not lie after \<open>t\<close> leaves the answer
  of a read at \<open>t\<close> as it was: a sweep deletes only what that read would miss anyway.
\<close>

lemma cache_step_Get:
  assumes "\<not> writes tok e" and "ev_time e \<le> t"
  shows "cache_Get tok t (cache_step e c) = cache_Get tok t c"
proof (cases e)
  case (Put t' k uid)
  with assms show ?thesis
    by (simp add: put_def cache_Set_def cache_Get_def Let_def)
next
  case (Resolve t' k)
  then show ?thesis by simp
next
  case (Sweep t')
  with assms have "t' \<le> t" by simp
  then show ?thesis using Sweep
    by (auto simp: DeleteExpired_def cache_Get_def expired_def split: option.splits)
qed

lemma cache_run_Get:
  "\<forall>e\<in>set evs. \<not> writes tok e \<and> ev_time e \<le> t \<Longrightarrow>
     cache_Get tok t (cache_run evs c) = cache_Get tok t c"
proof (induction evs arbitrary: c)
  case Nil
  then show ?case by simp
next
  case (Cons e evs)
  then have "cache_Get tok t (cache_run evs (cache_step e c)) = cache_Get tok t (cache_step e c)"
    by simp
  also have "\<dots> = cache_Get tok t c"
    using Cons.prems by (simp add: cache_step_Get)
  finally show ?case by simp
qed

lemma put_item:
  "defaultExpiration c = 5 * Minute \<Longrightarrow>
     items (put tok uid t0 c) tok = Some \<lparr>Object = uid, Expiration = t0 + 5 * Minute\<rparr>"
  by (simp add: put_def cache_Set_def DefaultExpiration_def Let_def Minute_def Second_def)

lemma Get_put:
  assumes "0 \<le> t0" and "defaultExpiration c = 5 * Minute"
  shows "cache_Get tok t (put tok uid t0 c) = (if t \<le> t0 + 5 * Minute then Some uid else None)"
  using assms by (auto simp: cache_Get_def put_item expired_def Minute_def Second_def)

lemma resolve_after_put:
  assumes "0 \<le> t0" and "\<forall>e\<in>set evs. \<not> writes tok e \<and> ev_time e \<le> t"
  shows "resolve tok t (cache_run evs (put tok uid t0 (cache_run evs0 userinfocache)))
           = (if t \<le> t0 + 5 * Minute then Some uid else None)"
proof -
  have d: "defaultExpiration (cache_run evs0 userinfocache) = 5 * Minute"
    by (simp add: cache_run_defaultExpiration userinfocache_defaultExpiration)
  have "resolve tok t (cache_run evs (put tok uid t0 (cache_run evs0 userinfocache)))
          = cache_Get tok t (put tok uid t0 (cache_run evs0 userinfocache))"
    unfolding resolve_def using assms(2) by (rule cache_run_Get)
  also have "\<dots> = (if t \<le> t0 + 5 * Minute then Some uid else None)"
    using assms(1) d by (rule Get_put)
  finally show ?thesis .
qed

text \<open>
  C3. The cache is in any state reached from the empty \<open>userinfocache\<close> (it may hold an
  entry for the token already). After \<open>put(token, id)\<close> at \<open>t0\<close>, and whatever reads,
  sweeps and puts of other tokens happen up to \<open>t\<close>, \<open>resolve(token)\<close> at \<open>t\<close> returns
  \<open>id\<close> while the TTL of five minutes has not elapsed since \<open>t0\<close>, and a miss once it
  has: the put has overwritten the entry and its expiry counts from \<open>t0\<close>. A hit is never
  an expired entry. Instants are Unix times, so \<open>t0\<close> is not negative.
\<close>

theorem put_then_resolve:
  assumes "0 \<le> t0" and "\<forall>e\<in>set evs. \<not> writes tok e \<and> ev_time e \<le> t"
  shows "resolve tok t (cache_run evs (put tok uid t0 (cache_run evs0 userinfocache)))
           = (if t \<le> t0 + 5 * Minute then Some uid else None)
         \<and> (\<forall>k now c v. resolve k now c = Some v \<longrightarrow>
               (\<exists>it. items c k = Some it \<and> Object it = v \<and> \<not> expired it now))"
proof
  show "resolve tok t (cache_run evs (put tok uid t0 (cache_run evs0 userinfocache)))
          = (if t \<le> t0 + 5 * Minute then Some uid else None)"
    using assms by (rule resolve_after_put)
  show "\<forall>k now c v. resolve k now c = Some v \<longrightarrow>
          (\<exists>it. items c k = Some it \<and> Object it = v \<and> \<not> expired it now)"
    by (auto simp: resolve_def cache_Get_def split: option.splits if_splits)
qed

theorem put_then_resolve_witness:
  "resolve ''secret'' (3 * Minute)
     (cache_run [Resolve Minute ''secret'', Sweep (2 * Minute), Put (2 * Minute) ''other'' 9]
        (put ''secret'' 7 0 (cache_run [Put 0 ''secret'' 5] userinfocache))) = Some 7
   \<and> resolve ''secret'' (6 * Minute)
     (cache_run [Resolve Minute ''secret'', Sweep (2 * Minute), Put (2 * Minute) ''other'' 9]
        (put ''secret'' 7 0 (cache_run [Put 0 ''secret'' 5] userinfocache))) = None"
  using put_then_resolve [of 0 "[Resolve Minute ''secret'', Sweep (2 * Minute), Put (2 * Minute) ''other'' 9]"
      "''secret''" "3 * Minute" 7 "[Put 0 ''secret'' 5]"]
    put_then_resolve [of 0 "[Resolve Minute ''secret'', Sweep (2 * Minute), Put (2 * Minute) ''other'' 9]"
      "''secret''" "6 * Minute" 7 "[Put 0 ''secret'' 5]"]
  by (simp add: Minute_def Second_def)

text \<open>
  C2. An entry put at \<open>t0\<close> is read at \<open>t\<close>; \<open>a\<close> is the instant of the access before
  that one (or of the put), so it is not before \<open>t0\<close>. The entry expires by the rule of
  an idle window and an absolute window, whichever is reached first: with both windows
  at five minutes, the default expiration of the cache, the rule is exactly what
  \<open>resolve\<close> answers, and with an idle window of five minutes and any longer absolute
  window every access that the rule calls expired is a miss. In particular an access
  made more than five minutes after the previous one is a miss, also when the absolute
  window of ten minutes has not yet elapsed since the put.
\<close>

theorem expires_by_idle_or_absolute_window:
  assumes "0 \<le> t0" and "\<forall>e\<in>set evs. \<not> writes tok e \<and> ev_time e \<le> t" and "t0 \<le> a"
  shows "resolve tok t (cache_run evs (put tok uid t0 (cache_run evs0 userinfocache)))
           = (if spec_expired (5 * Minute) (5 * Minute) t0 a t then None else Some uid)
         \<and> (\<forall>A. 5 * Minute \<le> A \<and> spec_expired (5 * Minute) A t0 a t \<longrightarrow>
               resolve tok t (cache_run evs (put tok uid t0 (cache_run evs0 userinfocache))) = None)
         \<and> (a + 5 * Minute < t \<and> t \<le> t0 + 10 * Minute \<longrightarrow>
               resolve tok t (cache_run evs (put tok uid t0 (cache_run evs0 userinfocache))) = None)"
proof -
  have r: "resolve tok t (cache_run evs (put tok uid t0 (cache_run evs0 userinfocache)))
             = (if t \<le> t0 + 5 * Minute then Some uid else None)"
    using assms(1,2) by (rule resolve_after_put)
  have exact: "spec_expired (5 * Minute) (5 * Minute) t0 a t = (t0 + 5 * Minute < t)"
    using assms(3) by (auto simp: spec_expired_def)
  have upper: "t0 + 5 * Minute < t" if "5 * Minute \<le> A" "spec_expired (5 * Minute) A t0 a t" for A
    using that assms(3) by (auto simp: spec_expired_def)
  have idle: "t0 + 5 * Minute < t" if "a + 5 * Minute < t"
    using that assms(3) by simp
  show ?thesis
    unfolding r exact using upper idle by auto
qed

theorem expires_by_idle_or_absolute_window_witness:
  "resolve ''secret'' (5 * Minute)
     (cache_run [Resolve (4 * Minute) ''secret''] (put ''secret'' 7 0 (cache_run [] userinfocache)))
     = Some 7
   \<and> \<not> spec_expired (5 * Minute) (5 * Minute) 0 (4 * Minute) (5 * Minute)
   \<and> resolve ''secret'' (9 * Minute + 30 * Second)
     (cache_run [Resolve (4 * Minute) ''secret''] (put ''secret'' 7 0 (cache_run [] userinfocache)))
     = None
   \<and> 4 * Minute + 5 * Minute < 9 * Minute + 30 * Second
   \<and> 9 * Minute + 30 * Second \<le> 0 + 10 * Minute"
  using expires_by_idle_or_absolute_window [of 0 "[Resolve (4 * Minute) ''secret'']" "''secret''"
      "5 * Minute" "4 * Minute" 7 "[]"]
    expires_by_idle_or_absolute_window [of 0 "[Resolve (4 * Minute) ''secret'']" "''secret''"
      "9 * Minute + 30 * Second" "4 * Minute" 7 "[]"]
  by (simp add: Minute_def Second_def spec_expired_def)

section \<open>Authentication with and without the cache\<close>

lemma authenticate_miss:
  "resolve tok now c = None \<Longrightarrow> fst (authenticate tok now c rows) = authenticate_store tok rows"
  by (simp add: authenticate_def authenticate_store_def split: option.splits)

lemma authenticate_hit:
  assumes "entry_agrees rows c tok" and "resolve tok now c = Some uid"
  shows "authenticate_store tok rows = Tenant uid"
proof -
  from assms(2) obtain it where "items c tok = Some it" "Object it = uid"
    by (auto simp: resolve_def cache_Get_def split: option.splits if_splits)
  with assms(1) show ?thesis by (simp add: entry_agrees_def)
qed

lemma authenticate_agreeing:
  assumes "entry_agrees rows c tok"
  shows "fst (authenticate tok now c rows) = authenticate_store tok rows"
proof (cases "resolve tok now c")
  case None
  then show ?thesis by (rule authenticate_miss)
next
  case (Some uid)
  with assms have "authenticate_store tok rows = Tenant uid" by (rule authenticate_hit)
  with Some show ?thesis by (simp add: authenticate_def)
qed

lemma put_agrees:
  "authenticate_store tok rows = Tenant uid \<Longrightarrow> entry_agrees rows (put tok uid now c) tok"
  by (simp add: entry_agrees_def put_def cache_Set_def Let_def)

lemma put_other:
  "k \<noteq> tok \<Longrightarrow> items (put k uid now c) tok = items c tok"
  by (simp add: put_def cache_Set_def Let_def)

lemma authenticate_put_agrees:
  assumes "resolve tok now c = None" and "authenticate_store tok rows \<noteq> Rejected"
  shows "entry_agrees rows (snd (authenticate tok now c rows)) tok"
proof -
  from assms(2) obtain r where r: "getByToken tok rows = Some r"
    by (auto simp: authenticate_store_def split: option.splits)
  then have "authenticate_store tok rows = Tenant (id_col r)"
    by (simp add: authenticate_store_def)
  then have "entry_agrees rows (put tok (id_col r) now c) tok" by (rule put_agrees)
  with assms(1) r show ?thesis by (simp add: authenticate_def)
qed

lemma authenticate_keeps_agreeing:
  assumes "entry_agrees rows c tok"
  shows "entry_agrees rows (snd (authenticate k t c rows)) tok"
proof (cases "resolve k t c")
  case (Some uid)
  with assms show ?thesis by (simp add: authenticate_def)
next
  case None
  show ?thesis
  proof (cases "getByToken k rows")
    case N: None
    with None assms show ?thesis by (simp add: authenticate_def)
  next
    case (Some r)
    show ?thesis
    proof (cases "k = tok")
      case True
      from Some have "authenticate_store k rows = Tenant (id_col r)"
        by (simp add: authenticate_store_def)
      then have "entry_agrees rows (put k (id_col r) t c) k" by (rule put_agrees)
      with None Some True show ?thesis by (simp add: authenticate_def)
    next
      case False
      then have "items (put k (id_col r) t c) tok = items c tok" by (rule put_other)
      with assms have "entry_agrees rows (put k (id_col r) t c) tok"
        by (simp add: entry_agrees_def)
      with None Some show ?thesis by (simp add: authenticate_def)
    qed
  qed
qed

lemma DeleteExpired_keeps_agreeing:
  "entry_agrees rows c tok \<Longrightarrow> entry_agrees rows (DeleteExpired t c) tok"
  by (auto simp: entry_agrees_def DeleteExpired_def split: option.splits)

lemma statement_keeps_agreeing:
  "entry_agrees rows c tok \<Longrightarrow> authenticate_store tok rows' = authenticate_store tok rows \<Longrightarrow>
     entry_agrees rows' c tok"
  by (simp add: entry_agrees_def split: option.splits)

lemma sys_run_keeps_agreeing:
  "entry_agrees rows c tok \<Longrightarrow> keeps_token tok evs rows \<Longrightarrow>
     entry_agrees (snd (sys_run evs (c, rows))) (fst (sys_run evs (c, rows))) tok"
proof (induction evs arbitrary: c rows)
  case Nil
  then show ?case by simp
next
  case (Cons e evs)
  show ?case
  proof (cases e)
    case (Request t k)
    from Cons.prems(1) have "entry_agrees rows (snd (authenticate k t c rows)) tok"
      by (rule authenticate_keeps_agreeing)
    moreover from Cons.prems(2) Request have "keeps_token tok evs rows" by simp
    ultimately have "entry_agrees (snd (sys_run evs (snd (authenticate k t c rows), rows)))
        (fst (sys_run evs (snd (authenticate k t c rows), rows))) tok"
      by (rule Cons.IH)
    with Request show ?thesis by simp
  next
    case (Statement q)
    with Cons.prems(2) have k: "authenticate_store tok (exec_all [q] rows) = authenticate_store tok rows"
      "keeps_token tok evs (exec_all [q] rows)" by simp_all
    from Cons.prems(1) k(1) have "entry_agrees (exec_all [q] rows) c tok"
      by (rule statement_keeps_agreeing)
    then have "entry_agrees (snd (sys_run evs (c, exec_all [q] rows)))
        (fst (sys_run evs (c, exec_all [q] rows))) tok"
      using k(2) by (rule Cons.IH)
    with Statement show ?thesis by simp
  next
    case (Janitor t)
    from Cons.prems(1) have "entry_agrees rows (DeleteExpired t c) tok"
      by (rule DeleteExpired_keeps_agreeing)
    moreover from Cons.prems(2) Janitor have "keeps_token tok evs rows" by simp
    ultimately have "entry_agrees (snd (sys_run evs (DeleteExpired t c, rows)))
        (fst (sys_run evs (DeleteExpired t c, rows))) tok"
      by (rule Cons.IH)
    with Janitor show ?thesis by simp
  qed
qed

text \<open>
  C7, as the code has it. A miss (no entry, or an expired one) is never a rejection: the
  request is authenticated by the store, and when the store knows the token the entry
  that is put agrees with the store. From a state in which the entry of a token agrees
  with the store (the empty cache is one), and over every run of requests, statements
  and sweeps in which no statement changes what the store gives for that token,
  authentication with the cache resolves the token as the store alone does, on a hit as
  on a miss; stale entries of other tokens do not matter. Nothing removes an entry when
  the store changes.
\<close>

theorem cache_transparent_while_token_kept:
  "(resolve tok now c = None \<longrightarrow>
      fst (authenticate tok now c rows) = authenticate_store tok rows)
   \<and> (resolve tok now c = None \<and> authenticate_store tok rows \<noteq> Rejected \<longrightarrow>
        entry_agrees rows (snd (authenticate tok now c rows)) tok)
   \<and> (entry_agrees rows c tok \<and> keeps_token tok evs rows \<longrightarrow>
        fst (authenticate tok now (fst (sys_run evs (c, rows))) (snd (sys_run evs (c, rows))))
          = authenticate_store tok (snd (sys_run evs (c, rows)))
        \<and> entry_agrees (snd (sys_run evs (c, rows))) (fst (sys_run evs (c, rows))) tok)
   \<and> entry_agrees rows userinfocache tok"
proof (intro conjI impI)
  assume "resolve tok now c = None"
  then show "fst (authenticate tok now c rows) = authenticate_store tok rows"
    by (rule authenticate_miss)
next
  assume "resolve tok now c = None \<and> authenticate_store tok rows \<noteq> Rejected"
  then show "entry_agrees rows (snd (authenticate tok now c rows)) tok"
    by (simp add: authenticate_put_agrees)
next
  assume "entry_agrees rows c tok \<and> keeps_token tok evs rows"
  then have a: "entry_agrees (snd (sys_run evs (c, rows))) (fst (sys_run evs (c, rows))) tok"
    by (simp add: sys_run_keeps_agreeing)
  then show "fst (authenticate tok now (fst (sys_run evs (c, rows))) (snd (sys_run evs (c, rows))))
          = authenticate_store tok (snd (sys_run evs (c, rows)))"
    by (rule authenticate_agreeing)
  from a show "entry_agrees (snd (sys_run evs (c, rows))) (fst (sys_run evs (c, rows))) tok" .
next
  show "entry_agrees rows userinfocache tok"
    by (simp add: entry_agrees_def userinfocache_def New_def)
qed

theorem cache_transparent_while_token_kept_witness:
  "resolve ''secret'' 0 userinfocache = None
   \<and> authenticate_store ''secret'' [alice] = Tenant 1
   \<and> entry_agrees [alice] (snd (authenticate ''secret'' 0 userinfocache [alice])) ''secret''
   \<and> keeps_token ''secret'' [Statement (Insert bob), Janitor Minute, Request Minute ''other'']
        [alice]
   \<and> resolve ''secret'' (2 * Minute)
        (fst (sys_run [Statement (Insert bob), Janitor Minute, Request Minute ''other'']
               (snd (authenticate ''secret'' 0 userinfocache [alice]), [alice]))) = Some 1
   \<and> fst (authenticate ''secret'' (2 * Minute)
        (fst (sys_run [Statement (Insert bob), Janitor Minute, Request Minute ''other'']
               (snd (authenticate ''secret'' 0 userinfocache [alice]), [alice])))
        (snd (sys_run [Statement (Insert bob), Janitor Minute, Request Minute ''other'']
               (snd (authenticate ''secret'' 0 userinfocache [alice]), [alice])))) = Tenant 1
   \<and> authenticate_store ''secret''
        (snd (sys_run [Statement (Insert bob), Janitor Minute, Request Minute ''other'']
               (snd (authenticate ''secret'' 0 userinfocache [alice]), [alice]))) = Tenant 1"
  using cache_transparent_while_token_kept [of "''secret''" 0 userinfocache "[alice]" "[]"]
    cache_transparent_while_token_kept [of "''secret''" "2 * Minute"
      "snd (authenticate ''secret'' 0 userinfocache [alice])" "[alice]"
      "[Statement (Insert bob), Janitor Minute, Request Minute ''other'']"]
  by (simp add: insert_row_def row_of_insert_def new_user_def bob_def not_null_col_def
      nullable_col_def alice_def authenticate_def authenticate_store_def getByToken_def
      resolve_def cache_Get_def put_def cache_Set_def userinfocache_def New_def
      DefaultExpiration_def expired_def DeleteExpired_def entry_agrees_def Let_def
      Minute_def Second_def)

text \<open>
  C7, as stated, fails. The store holds one record with the token; a first request puts
  it into the cache; the record is deleted; a second request with the token, one minute
  later, is still resolved to tenant 1 by the cache, while the store alone rejects it.
\<close>

theorem stale_entry_after_delete:
  "exec_all [Insert (new_user 1 ''alice'' ''secret'')] [] = [alice]
   \<and> fst (authenticate ''secret'' 0 userinfocache [alice]) = Tenant 1
   \<and> exec_all [Delete (\<lambda>r. id_col r = 1)] [alice] = []
   \<and> fst (authenticate ''secret'' Minute
            (snd (authenticate ''secret'' 0 userinfocache [alice])) []) = Tenant 1
   \<and> authenticate_store ''secret'' [] = Rejected"
  by (simp add: insert_row_def row_of_insert_def new_user_def not_null_col_def nullable_col_def
      alice_def delete_rows_def authenticate_def authenticate_store_def getByToken_def
      resolve_def cache_Get_def put_def cache_Set_def userinfocache_def New_def
      DefaultExpiration_def expired_def Let_def Minute_def Second_def)

end
